theory Spec2Isabelle
  imports Complex_Main "HOL-Library.Code_Target_Nat"
begin

section \<open>Results\<close>

text \<open>
  A gate result is a JavaScript object. The fields the orchestration code reads or writes
  are record fields here; a field the object does not have (\<open>undefined\<close>) is \<open>None\<close>.
  \<open>status\<close> is kept as the string the code compares: the gates write \<open>'pass'\<close>, \<open>'fail'\<close>,
  \<open>'skip'\<close>, \<open>'error'\<close>, the runner and the reporter write and compare \<open>'passed'\<close>,
  \<open>'failed'\<close>, \<open>'skipped'\<close>, \<open>'error'\<close>.
  \<open>payload\<close> stands for the gate-defined content (issues, stats, details, score), which
  the orchestration code only copies. \<open>details_attempts\<close> is \<open>details.attempts\<close> of the
  error result built by \<open>BaseQualityGate.run\<close>. Timestamps are milliseconds of the clock.
  An error is kept as its message; stack traces (\<open>stack\<close>, \<open>details.lastError\<close>) are
  left out.
\<close>

record result =
  status :: string
  gate :: "string option"
  reason :: "string option"
  error :: "string option"
  duration :: "nat option"
  attempts :: "nat option"
  details_attempts :: "nat option"
  payload :: string
  metadata :: "string \<rightharpoonup> string"
  gateName :: "string option"
  taskId :: "string option"
  timestamp :: "nat option"
  stored :: "bool option"
  storageId :: "string option"
  storageError :: "string option"

text \<open>The object literal \<open>{ status: s }\<close>: every other field absent.\<close>

definition plain :: "string \<Rightarrow> result" where
  "plain s = \<lparr> status = s, gate = None, reason = None, error = None, duration = None,
     attempts = None, details_attempts = None, payload = [], metadata = Map.empty,
     gateName = None, taskId = None, timestamp = None, stored = None, storageId = None,
     storageError = None \<rparr>"

text \<open>JavaScript truthiness of a value that is a string or \<open>undefined\<close>/\<open>null\<close>.\<close>

fun truthy :: "string option \<Rightarrow> bool" where
  "truthy None = False"
| "truthy (Some s) = (s \<noteq> [])"

section \<open>ResultReporter.generateSummary\<close>

record gate_summary =
  g_total :: nat
  g_passed :: nat
  g_failed :: nat
  g_results :: "result list"

text \<open>
  The summary object. \<open>overallStatus\<close> and \<open>score\<close> are assigned after the loop,
  \<open>sum_duration\<close> by \<open>QualityRunner.run\<close>, the storage fields by \<open>storeSummary\<close>;
  until then the object does not have them. \<open>score\<close> is the exact quotient (the code
  computes it in double precision).
\<close>

record summary =
  total :: nat
  passed :: nat
  failed :: nat
  skipped :: nat
  errors :: nat
  gates :: "string \<rightharpoonup> gate_summary"
  sum_timestamp :: nat
  sum_taskId :: "string option"
  overallStatus :: "string option"
  score :: "rat option"
  sum_duration :: "nat option"
  sum_stored :: "bool option"
  sum_storageId :: "string option"
  sum_storageError :: "string option"

text \<open>
  \<open>summary.gates\<close> is created by the literal \<open>{}\<close>, so it inherits the properties of
  \<open>Object.prototype\<close>. For these keys \<open>summary.gates[gateName]\<close> is truthy without
  an own entry, no sub-summary is created, and \<open>summary.gates[gateName].results.push\<close>
  reads \<open>push\<close> of \<open>undefined\<close>: a TypeError.
\<close>

definition inherited_keys :: "string list" where
  "inherited_keys = [''constructor'', ''__proto__'', ''hasOwnProperty'', ''isPrototypeOf'',
     ''propertyIsEnumerable'', ''toLocaleString'', ''toString'', ''valueOf'',
     ''__defineGetter__'', ''__defineSetter__'', ''__lookupGetter__'', ''__lookupSetter__'']"

text \<open>\<open>result.gateName || result.gate\<close>, as a property key.\<close>

definition gate_key :: "result \<Rightarrow> string" where
  "gate_key r =
     (if truthy (gateName r) then the (gateName r)
      else (case gate r of None \<Rightarrow> ''undefined'' | Some n \<Rightarrow> n))"

definition count_status :: "summary \<Rightarrow> result \<Rightarrow> summary" where
  "count_status s r =
     (if status r = ''passed'' then s\<lparr>passed := passed s + 1\<rparr>
      else if status r = ''failed'' then s\<lparr>failed := failed s + 1\<rparr>
      else if status r = ''skipped'' then s\<lparr>skipped := skipped s + 1\<rparr>
      else if status r = ''error'' then s\<lparr>errors := errors s + 1\<rparr>
      else s)"

definition group_gate :: "gate_summary \<Rightarrow> result \<Rightarrow> gate_summary" where
  "group_gate gs r =
     (let gs1 = gs\<lparr>g_total := g_total gs + 1\<rparr>;
          gs2 = (if status r = ''passed'' then gs1\<lparr>g_passed := g_passed gs1 + 1\<rparr>
                 else if status r = ''failed'' then gs1\<lparr>g_failed := g_failed gs1 + 1\<rparr>
                 else gs1)
      in gs2\<lparr>g_results := g_results gs2 @ [r]\<rparr>)"

text \<open>One iteration of the loop over the results; \<open>Inl\<close> is the TypeError.\<close>

definition summary_step :: "summary \<Rightarrow> result \<Rightarrow> string + summary" where
  "summary_step s r =
     (let s1 = count_status s r; k = gate_key r in
      if k \<in> set inherited_keys
      then Inl ''TypeError: Cannot read properties of undefined (reading 'push')''
      else
        let gs = (case gates s1 k of
                    None \<Rightarrow> \<lparr> g_total = 0, g_passed = 0, g_failed = 0, g_results = [] \<rparr>
                  | Some g \<Rightarrow> g)
        in Inr (s1\<lparr>gates := (gates s1)(k \<mapsto> group_gate gs r)\<rparr>))"

fun summary_loop :: "summary \<Rightarrow> result list \<Rightarrow> string + summary" where
  "summary_loop s [] = Inr s"
| "summary_loop s (r # rs) =
     (case summary_step s r of Inl e \<Rightarrow> Inl e | Inr s' \<Rightarrow> summary_loop s' rs)"

definition finish_summary :: "summary \<Rightarrow> summary" where
  "finish_summary s =
     s\<lparr>overallStatus := Some (if 0 < failed s \<or> 0 < errors s then ''failed'' else ''passed''),
       score := Some (if 0 < total s then (of_nat (passed s) / of_nat (total s)) * 100 else 0)\<rparr>"

text \<open>
  \<open>generateSummary(results)\<close> reads two things besides its argument: the reporter's
  \<open>taskId\<close> and the clock (\<open>new Date()\<close>); both are arguments here.
\<close>

definition generateSummary :: "string option \<Rightarrow> nat \<Rightarrow> result list \<Rightarrow> string + summary" where
  "generateSummary tid now results =
     (case summary_loop
        \<lparr> total = length results, passed = 0, failed = 0, skipped = 0, errors = 0,
          gates = Map.empty, sum_timestamp = now, sum_taskId = tid,
          overallStatus = None, score = None, sum_duration = None, sum_stored = None,
          sum_storageId = None, sum_storageError = None \<rparr> results of
        Inl e \<Rightarrow> Inl e
      | Inr s \<Rightarrow> Inr (finish_summary s))"

section \<open>BaseQualityGate\<close>

text \<open>
  What one call of \<open>execute(code, context)\<close> does, as the executor sees it: it resolves
  with a result or rejects with an error after so many milliseconds, or it never settles.
\<close>

datatype outcome = Returns nat result | Throws nat string | Never

text \<open>
  A gate as constructed. \<open>execute g k\<close> is the behaviour of the call of \<open>execute\<close> that
  follows \<open>k\<close> earlier calls within one \<open>run\<close>. \<open>retryCount\<close> is a count
  (\<open>options.retryCount || 0\<close>), \<open>timeout\<close> a number of milliseconds.
\<close>

record BaseQualityGate =
  name :: string
  enabled :: bool
  timeout :: nat
  retryCount :: nat
  execute :: "nat \<Rightarrow> outcome"

text \<open>
  What the code does besides computing values, in the order it does it. The first group
  is the gate's (\<open>executeWithTimeout\<close>, \<open>run\<close>), the second the runner's.
  \<open>Execute n k\<close> is the call of \<open>execute\<close> of gate \<open>n\<close> after \<open>k\<close> earlier calls;
  \<open>TimerFired n k\<close> is the timer callback of that call running, which rejects the promise;
  \<open>ClearTimer n k\<close> is the \<open>clearTimeout\<close> that the code runs when that call of
  \<open>execute\<close> has settled, early or late.
\<close>

datatype effect =
    SetTimer string nat
  | Execute string nat
  | ClearTimer string nat
  | TimerFired string nat
  | EmitComplete string string nat nat
  | EmitRetry string nat string
  | Sleep nat
  | RunnerSetTimer string nat
  | RunnerClearTimer string
  | RunnerTimerFired string
  | EmitRunStarted nat
  | EmitGateStarted string
  | EmitGateCompleted string result
  | EmitGateError string string
  | EmitRunStopped string string
  | EmitRunCompleted summary

text \<open>
  \<open>setTimeout(f, ms)\<close> of Node.js waits \<open>ms\<close> milliseconds, and one millisecond when
  \<open>ms\<close> is below 1 or above \<open>2^31 - 1\<close>. An operation that settles after \<open>t\<close>
  milliseconds wins the race against the timer when \<open>t\<close> is below that delay.
\<close>

definition timer_delay :: "nat \<Rightarrow> nat" where
  "timer_delay ms = (if 1 \<le> ms \<and> ms \<le> 2147483647 then ms else 1)"

text \<open>
  The string of a number in a template literal (\<open>Number::toString\<close>). The decimal
  numeral first.
\<close>

definition digit_char :: "nat \<Rightarrow> char" where
  "digit_char d = ''0123456789'' ! d"

fun num_str :: "nat \<Rightarrow> string" where
  "num_str n = (if n < 10 then [digit_char n] else num_str (n div 10) @ [digit_char (n mod 10)])"

declare num_str.simps [simp del]

text \<open>
  A JavaScript number is a double. The double that an integer denotes: the integer
  itself up to 53 bits, else the nearest multiple of the power of two that leaves 53 bits
  (ties to the even one); \<open>None\<close> is \<open>Infinity\<close>, from \<open>2^1024\<close> on.
\<close>

fun bit_length :: "nat \<Rightarrow> nat" where
  "bit_length n = (if n = 0 then 0 else Suc (bit_length (n div 2)))"

declare bit_length.simps [simp del]

definition number_value :: "nat \<Rightarrow> nat option" where
  "number_value n =
     (let b = bit_length n in
      if b \<le> 53 then Some n
      else
        let e = b - 53; q = n div 2 ^ e; r = n mod 2 ^ e; h = 2 ^ (e - 1);
            q' = (if h < r \<or> (r = h \<and> odd q) then q + 1 else q);
            v = q' * 2 ^ e
        in if v < 2 ^ 1024 then Some v else None)"

text \<open>
  The digits printed for a double \<open>x\<close> are the fewest that still denote \<open>x\<close>: with \<open>k\<close>
  digits, the two multiples of the power of ten around \<open>x\<close> are tried, the nearer first.
\<close>

definition shortest_at :: "nat \<Rightarrow> nat \<Rightarrow> nat list" where
  "shortest_at x k =
     (let j = length (num_str x) - k; lo = (x div 10 ^ j) * 10 ^ j; hi = lo + 10 ^ j
      in filter (\<lambda>c. number_value c = Some x)
           (if x - lo \<le> hi - x then [lo, hi] else [hi, lo]))"

definition shortest :: "nat \<Rightarrow> nat" where
  "shortest x =
     (case concat (map (shortest_at x) [1..<Suc (length (num_str x))]) of
        [] \<Rightarrow> x
      | c # cs \<Rightarrow> c)"

fun strip_zeros :: "string \<Rightarrow> string" where
  "strip_zeros [] = []"
| "strip_zeros (c # cs) =
     (case strip_zeros cs of [] \<Rightarrow> (if c = CHR ''0'' then [] else [c]) | ds \<Rightarrow> c # ds)"

definition exponent_form :: "nat \<Rightarrow> string" where
  "exponent_form c =
     (case strip_zeros (num_str c) of
        [] \<Rightarrow> []
      | d # ds \<Rightarrow>
          d # (if ds = [] then [] else CHR ''.'' # ds) @ ''e+'' @ num_str (length (num_str c) - 1))"

text \<open>
  Below \<open>2^53\<close> the string is the decimal numeral. Above, the digits are followed by
  zeros (\<open>2^63\<close> prints as \<open>9223372036854776000\<close>), and from \<open>10^21\<close> on the exponent
  form is used (\<open>1e+21\<close>).
\<close>

definition number_string :: "nat \<Rightarrow> string" where
  "number_string n =
     (if n < 2 ^ 53 then num_str n
      else
        (case number_value n of
           None \<Rightarrow> ''Infinity''
         | Some x \<Rightarrow>
             (let c = shortest x in if c < 10 ^ 21 then num_str c else exponent_form c)))"

definition timeout_message :: "string \<Rightarrow> nat \<Rightarrow> string" where
  "timeout_message n ms = ''Gate '' @ n @ '' timed out after '' @ number_string ms @ ''ms''"

text \<open>
  \<open>executeWithTimeout\<close>: the value the promise settles with (\<open>Inl\<close> a rejection, with the
  error's message), the milliseconds until it does, and the effects. When the timer fires
  first, the call of \<open>execute\<close> goes on; if it settles later, the code still runs
  \<open>clearTimeout(timer)\<close> and \<open>resolve\<close> or \<open>reject\<close>, which no longer change the promise.
  That late \<open>clearTimeout\<close> is listed with the effects of its attempt, though it happens
  when the call settles, which may be after later effects of \<open>run\<close> or after its return.
\<close>

definition executeWithTimeout ::
  "BaseQualityGate \<Rightarrow> nat \<Rightarrow> (string + result) \<times> nat \<times> effect list" where
  "executeWithTimeout g k =
     (let d = timer_delay (timeout g);
          started = [SetTimer (name g) (timeout g), Execute (name g) k];
          fired = (\<lambda>late. (Inl (timeout_message (name g) (timeout g)), d,
                           started @ [TimerFired (name g) k] @ late))
      in case execute g k of
           Returns t r \<Rightarrow>
             if t < d then (Inr r, t, started @ [ClearTimer (name g) k])
             else fired [ClearTimer (name g) k]
         | Throws t m \<Rightarrow>
             if t < d then (Inl m, t, started @ [ClearTimer (name g) k])
             else fired [ClearTimer (name g) k]
         | Never \<Rightarrow> fired [])"

text \<open>
  The \<open>while (attempts <= this.retryCount)\<close> loop of \<open>run\<close>, entered with \<open>attempts = n\<close>
  and \<open>lastError\<close>. After the loop \<open>lastError.message\<close> is read; were \<open>lastError\<close>
  still \<open>undefined\<close>, that would be a TypeError.
\<close>

function run_loop ::
  "BaseQualityGate \<Rightarrow> nat \<Rightarrow> string option \<Rightarrow> (string + result) \<times> nat \<times> effect list" where
  "run_loop g n lastError =
     (if n \<le> retryCount g then
        (case executeWithTimeout g n of
           (Inr r, t, es) \<Rightarrow>
             (Inr (r\<lparr>gate := Some (name g), duration := Some t, attempts := Some (n + 1)\<rparr>),
              t, es @ [EmitComplete (name g) (status r) t (n + 1)])
         | (Inl m, t, es) \<Rightarrow>
             (let n' = n + 1;
                  (w, ws) = (if n' \<le> retryCount g
                             then (timer_delay (1000 * n'),
                                   [EmitRetry (name g) n' m, Sleep (1000 * n')])
                             else (0, []));
                  (v, t', es') = run_loop g n' (Some m)
              in (v, t + w + t', es @ ws @ es')))
      else
        (case lastError of
           None \<Rightarrow>
             (Inl ''TypeError: Cannot read properties of undefined (reading 'message')'', 0, [])
         | Some m \<Rightarrow>
             (Inr ((plain ''error'')\<lparr>gate := Some (name g), error := Some m,
                     details_attempts := Some n\<rparr>), 0, [])))"
  by pat_completeness auto
termination
  by (relation "measure (\<lambda>(g, n, e). Suc (retryCount g) - n)") auto

declare run_loop.simps [simp del]

definition run :: "BaseQualityGate \<Rightarrow> (string + result) \<times> nat \<times> effect list" where
  "run g =
     (if \<not> enabled g
      then (Inr ((plain ''skipped'')\<lparr>gate := Some (name g), reason := Some ''Gate is disabled''\<rparr>),
            0, [])
      else run_loop g 0 None)"

section \<open>ResultReporter\<close>

text \<open>
  The storage collaborator is outside the repository. Its \<open>storeQualityResult\<close> is taken
  as the reply to each call in turn: the reply to the call that follows \<open>k\<close> earlier calls
  is \<open>adapter k\<close>, \<open>Inr id\<close> when it resolves with \<open>{ id }\<close> and \<open>Inl message\<close> when it
  rejects with an error. The reporter's \<open>storageLog\<close> keeps the arguments of the calls
  made, \<open>emitted\<close> the events it emits and the warnings it prints.
\<close>

datatype stored_item = StoredResult result | StoredSummary summary

record flush_summary =
  f_total :: nat
  f_stored :: nat
  f_failed :: nat
  f_results :: "result list"

text \<open>What \<open>flushBatch\<close> returns: \<open>{ flushed: 0 }\<close> or the batch storage summary.\<close>

datatype flush_result = Flushed nat | FlushSummary flush_summary

datatype rep_event = ResultEvent result | BatchFlushed flush_summary | Warned string

record ResultReporter =
  storageAdapter :: "(nat \<Rightarrow> string + string) option"
  storageLog :: "(string \<times> string option \<times> stored_item) list"
  rep_enabled :: bool
  rep_taskId :: "string option"
  batchMode :: bool
  batchResults :: "result list"
  reportMetadata :: "string \<rightharpoonup> string"
  emitted :: "rep_event list"

definition setTaskContext :: "ResultReporter \<Rightarrow> string option \<Rightarrow> ResultReporter" where
  "setTaskContext rep tid = rep\<lparr>rep_taskId := tid\<rparr>"

text \<open>The test \<open>this.storageAdapter && this.taskId\<close>: the adapter and the task id when both are truthy.\<close>

definition storage_target :: "ResultReporter \<Rightarrow> ((nat \<Rightarrow> string + string) \<times> string) option" where
  "storage_target rep =
     (case storageAdapter rep of
        None \<Rightarrow> None
      | Some a \<Rightarrow> (case rep_taskId rep of
                    None \<Rightarrow> None
                  | Some t \<Rightarrow> if t \<noteq> [] then Some (a, t) else None))"

text \<open>One call of \<open>this.storageAdapter.storeQualityResult(taskId, gateName, item)\<close>.\<close>

definition storeQualityResult ::
  "ResultReporter \<Rightarrow> (nat \<Rightarrow> string + string) \<Rightarrow> string \<Rightarrow> string option \<Rightarrow> stored_item
     \<Rightarrow> (string + string) \<times> ResultReporter" where
  "storeQualityResult rep a t n item =
     (a (length (storageLog rep)), rep\<lparr>storageLog := storageLog rep @ [(t, n, item)]\<rparr>)"

text \<open>\<open>reportResult(gateName, result)\<close> at clock reading \<open>now\<close>: the value returned and the reporter afterwards.\<close>

definition reportResult ::
  "ResultReporter \<Rightarrow> nat \<Rightarrow> string \<Rightarrow> result \<Rightarrow> result \<times> ResultReporter" where
  "reportResult rep now n r =
     (if \<not> rep_enabled rep then (r, rep)
      else
        let enhanced = r\<lparr>gateName := Some n, taskId := rep_taskId rep, timestamp := Some now,
                         metadata := reportMetadata rep ++ metadata r\<rparr>;
            rep1 = rep\<lparr>emitted := emitted rep @ [ResultEvent enhanced]\<rparr>
        in if batchMode rep1
           then (enhanced, rep1\<lparr>batchResults := batchResults rep1 @ [enhanced]\<rparr>)
           else
             (case storage_target rep1 of
                None \<Rightarrow> (enhanced, rep1)
              | Some (a, t) \<Rightarrow>
                  (case storeQualityResult rep1 a t (Some n) (StoredResult r) of
                     (Inr i, rep2) \<Rightarrow> (enhanced\<lparr>stored := Some True, storageId := Some i\<rparr>, rep2)
                   | (Inl m, rep2) \<Rightarrow>
                       (enhanced\<lparr>stored := Some False, storageError := Some m\<rparr>,
                        rep2\<lparr>emitted := emitted rep2
                               @ [Warned (''Failed to store quality result: '' @ m)]\<rparr>))))"

text \<open>The loop of \<open>flushBatch\<close> over the buffered results.\<close>

fun flush_loop ::
  "(nat \<Rightarrow> string + string) \<Rightarrow> string \<Rightarrow> result list \<Rightarrow> flush_summary \<times> ResultReporter
     \<Rightarrow> flush_summary \<times> ResultReporter" where
  "flush_loop a t [] (s, rep) = (s, rep)"
| "flush_loop a t (r # rs) (s, rep) =
     (case storeQualityResult rep a t (gateName r) (StoredResult r) of
        (Inr i, rep1) \<Rightarrow>
          flush_loop a t rs
            (s\<lparr>f_stored := f_stored s + 1,
               f_results := f_results s @ [r\<lparr>stored := Some True, storageId := Some i\<rparr>]\<rparr>, rep1)
      | (Inl m, rep1) \<Rightarrow>
          flush_loop a t rs
            (s\<lparr>f_failed := f_failed s + 1,
               f_results := f_results s @ [r\<lparr>stored := Some False, storageError := Some m\<rparr>]\<rparr>, rep1))"

definition flushBatch :: "ResultReporter \<Rightarrow> flush_result \<times> ResultReporter" where
  "flushBatch rep =
     (if \<not> batchMode rep \<or> batchResults rep = [] then (Flushed 0, rep)
      else
        let s0 = \<lparr> f_total = length (batchResults rep), f_stored = 0, f_failed = 0, f_results = [] \<rparr>;
            (s, rep1) = (case storage_target rep of
                           None \<Rightarrow> (s0, rep)
                         | Some (a, t) \<Rightarrow> flush_loop a t (batchResults rep) (s0, rep))
        in (FlushSummary s, rep1\<lparr>batchResults := [], emitted := emitted rep1 @ [BatchFlushed s]\<rparr>))"

definition storeSummary :: "ResultReporter \<Rightarrow> summary \<Rightarrow> summary \<times> ResultReporter" where
  "storeSummary rep s =
     (case storage_target rep of
        None \<Rightarrow> (s, rep)
      | Some (a, t) \<Rightarrow>
          (case storeQualityResult rep a t (Some ''summary'') (StoredSummary s) of
             (Inr i, rep1) \<Rightarrow> (s\<lparr>sum_stored := Some True, sum_storageId := Some i\<rparr>, rep1)
           | (Inl m, rep1) \<Rightarrow> (s\<lparr>sum_stored := Some False, sum_storageError := Some m\<rparr>, rep1)))"

section \<open>QualityRunner\<close>

text \<open>An element of \<open>this.gates\<close>, as \<open>addGate\<close> builds it (the options are not read again).\<close>

record entry =
  entry_gate :: BaseQualityGate
  entry_enabled :: bool

record QualityRunner =
  runner_gates :: "entry list"
  reporter :: ResultReporter
  continueOnFailure :: bool
  parallel :: bool
  runner_timeout :: nat

definition addGate :: "QualityRunner \<Rightarrow> BaseQualityGate \<Rightarrow> bool \<Rightarrow> QualityRunner" where
  "addGate R g en = R\<lparr>runner_gates := runner_gates R @ [\<lparr> entry_gate = g, entry_enabled = en \<rparr>]\<rparr>"

definition removeGate :: "QualityRunner \<Rightarrow> string \<Rightarrow> QualityRunner" where
  "removeGate R n = R\<lparr>runner_gates := filter (\<lambda>e. name (entry_gate e) \<noteq> n) (runner_gates R)\<rparr>"

text \<open>
  The state of one \<open>run\<close> call: the local array \<open>results\<close>, the reporter, the effects so
  far and the clock.
\<close>

record run_state =
  results :: "result list"
  rs_reporter :: ResultReporter
  effects :: "effect list"
  clock :: nat

text \<open>
  \<open>_runGateWithTimeout\<close>: the race of \<open>gate.run\<close> against the runner's timer. When the
  timer wins, the gate's \<open>run\<close> is not stopped; its effects are listed all the same, and
  so is the \<open>clearTimeout\<close> that the code runs when \<open>gate.run\<close> settles later.
\<close>

definition runGateWithTimeout ::
  "nat \<Rightarrow> BaseQualityGate \<Rightarrow> (string + result) \<times> nat \<times> effect list" where
  "runGateWithTimeout tmo g =
     (case run g of
        (v, t, fx) \<Rightarrow>
          if t < timer_delay tmo
          then (v, t, [RunnerSetTimer (name g) tmo] @ fx @ [RunnerClearTimer (name g)])
          else (Inl (timeout_message (name g) tmo), timer_delay tmo,
                [RunnerSetTimer (name g) tmo] @ fx @
                [RunnerTimerFired (name g), RunnerClearTimer (name g)]))"

definition disabled_result :: "BaseQualityGate \<Rightarrow> result" where
  "disabled_result g = (plain ''skipped'')\<lparr>gate := Some (name g), reason := Some ''Gate disabled''\<rparr>"

definition errorResult :: "BaseQualityGate \<Rightarrow> string \<Rightarrow> result" where
  "errorResult g m = (plain ''error'')\<lparr>gate := Some (name g), error := Some m\<rparr>"

text \<open>\<open>results.push(r); await this.reporter.reportResult(gate.name, r)\<close>.\<close>

definition push_report :: "run_state \<Rightarrow> string \<Rightarrow> result \<Rightarrow> run_state" where
  "push_report st n r =
     st\<lparr>results := results st @ [r],
        rs_reporter := snd (reportResult (rs_reporter st) (clock st) n r)\<rparr>"

text \<open>
  \<open>_runSequential\<close>: the loop over \<open>this.gates\<close>, with \<open>cont\<close> the runner's
  \<open>continueOnFailure\<close> and \<open>tmo\<close> its \<open>timeout\<close>. Not recursing is the \<open>break\<close>.
\<close>

fun runSequential :: "bool \<Rightarrow> nat \<Rightarrow> entry list \<Rightarrow> run_state \<Rightarrow> run_state" where
  "runSequential cont tmo [] st = st"
| "runSequential cont tmo (e # es) st =
     (let g = entry_gate e in
      if \<not> entry_enabled e
      then runSequential cont tmo es (push_report st (name g) (disabled_result g))
      else
        (case runGateWithTimeout tmo g of
           (Inr r, t, fx) \<Rightarrow>
             (let st1 = st\<lparr>effects := effects st @ [EmitGateStarted (name g)] @ fx,
                           clock := clock st + t\<rparr>;
                  st2 = push_report st1 (name g) r;
                  st3 = st2\<lparr>effects := effects st2 @ [EmitGateCompleted (name g) r]\<rparr>
              in if \<not> cont \<and> status r = ''failed''
                 then st3\<lparr>effects := effects st3 @ [EmitRunStopped ''Gate failed'' (name g)]\<rparr>
                 else runSequential cont tmo es st3)
         | (Inl m, t, fx) \<Rightarrow>
             (let st1 = st\<lparr>effects := effects st @ [EmitGateStarted (name g)] @ fx,
                           clock := clock st + t\<rparr>;
                  st2 = push_report st1 (name g) (errorResult g m);
                  st3 = st2\<lparr>effects := effects st2 @ [EmitGateError (name g) m]\<rparr>
              in if \<not> cont then st3 else runSequential cont tmo es st3)))"

text \<open>
  The callback \<open>_runParallel\<close> maps over \<open>this.gates\<close>: the result it resolves with,
  the milliseconds it takes and its effects.
\<close>

definition parallel_task :: "nat \<Rightarrow> entry \<Rightarrow> result \<times> nat \<times> effect list" where
  "parallel_task tmo e =
     (let g = entry_gate e in
      if \<not> entry_enabled e then (disabled_result g, 0, [])
      else
        (case runGateWithTimeout tmo g of
           (Inr r, t, fx) \<Rightarrow>
             (r, t, [EmitGateStarted (name g)] @ fx @ [EmitGateCompleted (name g) r])
         | (Inl m, t, fx) \<Rightarrow>
             (errorResult g m, t, [EmitGateStarted (name g)] @ fx @ [EmitGateError (name g) m])))"

text \<open>Each task reports its result when it completes, at the clock reading of that moment.\<close>

fun report_tasks ::
  "nat \<Rightarrow> (entry \<times> result \<times> nat \<times> effect list) list \<Rightarrow> ResultReporter \<Rightarrow> ResultReporter" where
  "report_tasks start [] rep = rep"
| "report_tasks start ((e, r, t, fx) # ts) rep =
     report_tasks start ts (snd (reportResult rep (start + t) (name (entry_gate e)) r))"

text \<open>
  \<open>_runParallel\<close>: all tasks are started, \<open>Promise.all\<close> waits for every one and gives
  their results in the order of the gates, and these are appended to \<open>results\<close>. The
  tasks interleave as the scheduler decides; the effects and the reporter's buffer are
  listed here gate by gate, and the clock advances by the longest task.
\<close>

definition runParallel :: "nat \<Rightarrow> entry list \<Rightarrow> run_state \<Rightarrow> run_state" where
  "runParallel tmo es st =
     (let tasks = map (parallel_task tmo) es
      in st\<lparr>results := results st @ map fst tasks,
            rs_reporter := report_tasks (clock st) (zip es tasks) (rs_reporter st),
            effects := effects st @ concat (map (\<lambda>task. snd (snd task)) tasks),
            clock := clock st + fold max (map (\<lambda>task. fst (snd task)) tasks) 0\<rparr>)"

text \<open>
  \<open>run(code, context)\<close>, started at clock reading \<open>now\<close> with \<open>context.taskId = tid\<close>,
  in three parts: the state before the gates run, the gates, and what follows them
  (flush, summary, its storage). The promise settles with the summary; \<open>Inl\<close> stands for
  its rejection, when \<open>generateSummary\<close> throws.
\<close>

definition start_state :: "QualityRunner \<Rightarrow> string option \<Rightarrow> nat \<Rightarrow> run_state" where
  "start_state R tid now =
     \<lparr> results = [],
       rs_reporter =
         (if truthy tid then setTaskContext (reporter R) tid else reporter R)\<lparr>batchMode := True\<rparr>,
       effects = [EmitRunStarted (length (runner_gates R))], clock = now \<rparr>"

definition run_gates :: "QualityRunner \<Rightarrow> run_state \<Rightarrow> run_state" where
  "run_gates R st =
     (if parallel R then runParallel (runner_timeout R) (runner_gates R) st
      else runSequential (continueOnFailure R) (runner_timeout R) (runner_gates R) st)"

definition finish_run :: "nat \<Rightarrow> run_state \<Rightarrow> (string + summary) \<times> run_state" where
  "finish_run startTime st1 =
     (let st2 = st1\<lparr>rs_reporter := snd (flushBatch (rs_reporter st1))\<rparr>
      in case generateSummary (rep_taskId (rs_reporter st2)) (clock st2) (results st2) of
           Inl e \<Rightarrow> (Inl e, st2)
         | Inr s \<Rightarrow>
             (case storeSummary (rs_reporter st2)
                     (s\<lparr>sum_duration := Some (clock st2 - startTime)\<rparr>) of
                (s', rep') \<Rightarrow>
                  (Inr s', st2\<lparr>rs_reporter := rep', effects := effects st2 @ [EmitRunCompleted s']\<rparr>)))"

definition runner_run ::
  "QualityRunner \<Rightarrow> string option \<Rightarrow> nat \<Rightarrow> (string + summary) \<times> run_state" where
  "runner_run R tid now = finish_run now (run_gates R (start_state R tid now))"

section \<open>Observations and inputs\<close>


text \<open>The counters, the score and the verdict of a summary.\<close>

definition verdict :: "summary \<Rightarrow> nat \<times> nat \<times> nat \<times> nat \<times> nat \<times> rat option \<times> string option" where
  "verdict s = (total s, passed s, failed s, skipped s, errors s, score s, overallStatus s)"

text \<open>The calls of \<open>execute\<close> among some effects, in order: gate name and call number.\<close>

fun executions :: "effect list \<Rightarrow> (string \<times> nat) list" where
  "executions [] = []"
| "executions (Execute n k # es) = (n, k) # executions es"
| "executions (e # es) = executions es"

text \<open>
  The calls of \<open>execute\<close> that have settled, early or late: those with the
  \<open>clearTimeout\<close> that follows the settling of the call.
\<close>

fun settlings :: "effect list \<Rightarrow> (string \<times> nat) list" where
  "settlings [] = []"
| "settlings (ClearTimer n k # es) = (n, k) # settlings es"
| "settlings (e # es) = settlings es"

text \<open>The calls of \<open>execute\<close> among some effects that have not settled.\<close>

definition unsettled :: "effect list \<Rightarrow> (string \<times> nat) list" where
  "unsettled es = filter (\<lambda>c. c \<notin> set (settlings es)) (executions es)"

text \<open>The arguments of the calls of \<open>sleep\<close> among some effects, in order.\<close>

fun sleeps :: "effect list \<Rightarrow> nat list" where
  "sleeps [] = []"
| "sleeps (Sleep ms # es) = ms # sleeps es"
| "sleeps (e # es) = sleeps es"

text \<open>
  A gate named \<open>n\<close> whose \<open>execute\<close> resolves after 5 ms with \<open>{ status: s }\<close>, as the
  gates of the repository do with \<open>s = 'pass'\<close> or \<open>s = 'fail'\<close>
  (\<open>this.shouldFail(issues) ? 'fail' : 'pass'\<close>), and the result its \<open>run\<close> returns.
\<close>

definition returning :: "string \<Rightarrow> string \<Rightarrow> BaseQualityGate" where
  "returning n s = \<lparr> name = n, enabled = True, timeout = 30000, retryCount = 0,
     execute = (\<lambda>k. Returns 5 (plain s)) \<rparr>"

definition gate_result :: "string \<Rightarrow> string \<Rightarrow> result" where
  "gate_result n s = (plain s)\<lparr>gate := Some n, duration := Some 5, attempts := Some 1\<rparr>"

definition three_gates :: "entry list" where
  "three_gates =
     [\<lparr> entry_gate = returning ''G1'' ''pass'', entry_enabled = True \<rparr>,
      \<lparr> entry_gate = returning ''G2'' ''fail'', entry_enabled = True \<rparr>,
      \<lparr> entry_gate = returning ''G3'' ''pass'', entry_enabled = True \<rparr>]"

text \<open>\<open>new ResultReporter()\<close>.\<close>

definition fresh_reporter :: ResultReporter where
  "fresh_reporter = \<lparr> storageAdapter = None, storageLog = [], rep_enabled = True,
     rep_taskId = None, batchMode = False, batchResults = [], reportMetadata = Map.empty,
     emitted = [] \<rparr>"

text \<open>
  \<open>new QualityRunner({ continueOnFailure: false, parallel: par })\<close> with the three gates
  added.
\<close>

definition fail_fast_runner :: "bool \<Rightarrow> QualityRunner" where
  "fail_fast_runner par = \<lparr> runner_gates = three_gates, reporter = fresh_reporter,
     continueOnFailure = False, parallel = par, runner_timeout = 60000 \<rparr>"



text \<open>
  A gate with \<open>timeout: 50\<close> and no retry whose \<open>execute\<close> resolves after 100 ms, too
  late.
\<close>

definition tardy :: BaseQualityGate where
  "tardy = \<lparr> name = ''Late'', enabled = True, timeout = 50, retryCount = 0,
     execute = (\<lambda>k. Returns 100 (plain ''pass'')) \<rparr>"

text \<open>A reporter with a task id whose storage adapter rejects every call.\<close>

definition failing_store :: ResultReporter where
  "failing_store = fresh_reporter\<lparr>storageAdapter := Some (\<lambda>k. Inl ''disk full''),
     rep_taskId := Some ''task-1''\<rparr>"

text \<open>The summary of no results, taken at clock reading 1000 for the task \<open>task-1\<close>.\<close>

definition empty_summary :: summary where
  "empty_summary = \<lparr> total = 0, passed = 0, failed = 0, skipped = 0, errors = 0,
     gates = Map.empty, sum_timestamp = 1000, sum_taskId = Some ''task-1'',
     overallStatus = Some ''passed'', score = Some 0, sum_duration = None, sum_stored = None,
     sum_storageId = None, sum_storageError = None \<rparr>"

section \<open>Lemmas about the executor\<close>

lemma sleeps_append: "sleeps (xs @ ys) = sleeps xs @ sleeps ys"
  by (induction xs rule: sleeps.induct) simp_all


lemma executions_append: "executions (xs @ ys) = executions xs @ executions ys"
  by (induction xs rule: executions.induct) simp_all


lemma executions_if:
  "executions (if c then xs else ys) = (if c then executions xs else executions ys)"
  by simp

lemma executions_concat:
  "executions (concat (map f ks)) = concat (map (\<lambda>k. executions (f k)) ks)"
  by (induction ks) (simp_all add: executions_append)


lemma executeWithTimeout_executes:
  "Execute (name g) k \<in> set (snd (snd (executeWithTimeout g k)))"
  by (cases "execute g k") (simp_all add: executeWithTimeout_def Let_def)

lemma run_loop_exit:
  "retryCount g < n \<Longrightarrow>
   run_loop g n (Some m) =
     (Inr ((plain ''error'')\<lparr>gate := Some (name g), error := Some m,
             details_attempts := Some n\<rparr>), 0, [])"
  by (simp add: run_loop.simps)

text \<open>A failed attempt that is not the last: retry event, sleep, next iteration.\<close>

lemma run_loop_retry:
  "Suc n \<le> retryCount g \<Longrightarrow> executeWithTimeout g n = (Inl m, t, es) \<Longrightarrow>
   run_loop g n e =
     (fst (run_loop g (Suc n) (Some m)),
      t + timer_delay (1000 * Suc n) + fst (snd (run_loop g (Suc n) (Some m))),
      es @ [EmitRetry (name g) (Suc n) m, Sleep (1000 * Suc n)]
         @ snd (snd (run_loop g (Suc n) (Some m))))"
  by (subst run_loop.simps) (simp add: Let_def split: prod.splits)

text \<open>The last attempt failing: the loop ends with the error result.\<close>

lemma run_loop_give_up:
  "n = retryCount g \<Longrightarrow> executeWithTimeout g n = (Inl m, t, es) \<Longrightarrow>
   run_loop g n e =
     (Inr ((plain ''error'')\<lparr>gate := Some (name g), error := Some m,
             details_attempts := Some (Suc n)\<rparr>), t, es)"
  by (subst run_loop.simps) (simp add: Let_def run_loop_exit split: prod.splits)

lemma run_loop_success:
  "n \<le> retryCount g \<Longrightarrow> executeWithTimeout g n = (Inr r, t, es) \<Longrightarrow>
   run_loop g n e =
     (Inr (r\<lparr>gate := Some (name g), duration := Some t, attempts := Some (Suc n)\<rparr>), t,
      es @ [EmitComplete (name g) (status r) t (Suc n)])"
  by (subst run_loop.simps) simp


text \<open>Every result of the loop carries the gate's name.\<close>

lemma run_loop_gate: "fst (run_loop g n e) = Inr r \<Longrightarrow> gate r = Some (name g)"
proof (induction "Suc (retryCount g) - n" arbitrary: n e)
  case 0
  then have "\<not> n \<le> retryCount g" by simp
  then show ?case using "0.prems"
    by (auto simp add: run_loop.simps plain_def split: option.splits)
next
  case (Suc d)
  then have le: "n \<le> retryCount g" by simp
  obtain v t es where ex: "executeWithTimeout g n = (v, t, es)"
    by (cases "executeWithTimeout g n")
  show ?case
  proof (cases v)
    case (Inr r')
    then show ?thesis using run_loop_success [OF le, of r' t es e] ex Suc.prems by auto
  next
    case (Inl m)
    show ?thesis
    proof (cases "n = retryCount g")
      case True
      then show ?thesis
        using run_loop_give_up [of n g m t es e] ex Inl Suc.prems by (auto simp add: plain_def)
    next
      case False
      then have more: "Suc n \<le> retryCount g" using le by simp
      have d: "d = Suc (retryCount g) - Suc n" using Suc.hyps(2) by simp
      have "fst (run_loop g (Suc n) (Some m)) = Inr r"
        using run_loop_retry [OF more, of m t es e] ex Inl Suc.prems by simp
      then show ?thesis using Suc.hyps(1) [OF d] by blast
    qed
  qed
qed

text \<open>An enabled gate's \<open>execute\<close> is called at least once.\<close>

lemma run_executes:
  "enabled g \<Longrightarrow> Execute (name g) 0 \<in> set (snd (snd (run g)))"
proof -
  assume en: "enabled g"
  obtain v t es where ex: "executeWithTimeout g 0 = (v, t, es)"
    by (cases "executeWithTimeout g 0")
  have es: "Execute (name g) 0 \<in> set es"
    using executeWithTimeout_executes [of g 0] ex by simp
  have "Execute (name g) 0 \<in> set (snd (snd (run_loop g 0 None)))"
  proof (cases v)
    case (Inr r)
    then show ?thesis using run_loop_success [of 0 g r t es None] ex es by simp
  next
    case (Inl m)
    show ?thesis
    proof (cases "0 = retryCount g")
      case True
      then show ?thesis using run_loop_give_up [of 0 g m t es None] ex Inl es by simp
    next
      case False
      then have "Suc 0 \<le> retryCount g" by simp
      then show ?thesis using run_loop_retry [of 0 g m t es None] ex Inl es by simp
    qed
  qed
  then show ?thesis using en by (simp add: run_def)
qed

text \<open>
  The gate whose \<open>execute\<close> resolves too late: one attempt, the timeout error; the call
  settles by itself afterwards (the late \<open>clearTimeout\<close>), so no call stays unsettled.
\<close>

lemma run_tardy:
  "run tardy =
     (Inr ((plain ''error'')\<lparr>gate := Some ''Late'',
             error := Some ''Gate Late timed out after 50ms'',
             details_attempts := Some 1\<rparr>), 50,
      [SetTimer ''Late'' 50, Execute ''Late'' 0, TimerFired ''Late'' 0, ClearTimer ''Late'' 0])"
proof -
  have "executeWithTimeout tardy 0 =
      (Inl ''Gate Late timed out after 50ms'', 50,
       [SetTimer ''Late'' 50, Execute ''Late'' 0, TimerFired ''Late'' 0, ClearTimer ''Late'' 0])"
    by (simp add: executeWithTimeout_def tardy_def timeout_message_def timer_delay_def
        number_string_def num_str.simps digit_char_def)
  from run_loop_give_up [OF _ this, of None] show ?thesis
    by (simp add: run_def tardy_def)
qed

lemma unsettled_tardy: "unsettled (snd (snd (run tardy))) = []"
  by (simp add: run_tardy unsettled_def)

lemma unsettled_returning: "unsettled (snd (snd (run (returning n s)))) = []"
  by (simp add: run_def returning_def run_loop.simps executeWithTimeout_def timer_delay_def
      unsettled_def)

section \<open>Lemmas about the summary\<close>

text \<open>The clock reading and the task id are copied into the summary and read nowhere else.\<close>

lemma summary_step_frame:
  "summary_step (s\<lparr>sum_timestamp := t, sum_taskId := i\<rparr>) r =
     map_sum id (\<lambda>s'. s'\<lparr>sum_timestamp := t, sum_taskId := i\<rparr>) (summary_step s r)"
  by (simp add: summary_step_def count_status_def Let_def)

lemma summary_loop_frame:
  "summary_loop (s\<lparr>sum_timestamp := t, sum_taskId := i\<rparr>) rs =
     map_sum id (\<lambda>s'. s'\<lparr>sum_timestamp := t, sum_taskId := i\<rparr>) (summary_loop s rs)"
proof (induction rs arbitrary: s)
  case Nil
  show ?case by simp
next
  case (Cons r rs)
  show ?case
    by (cases "summary_step s r") (simp_all add: summary_step_frame Cons.IH)
qed

lemma generateSummary_frame:
  "generateSummary tid now rs =
     map_sum id (\<lambda>s. s\<lparr>sum_timestamp := now, sum_taskId := tid\<rparr>) (generateSummary tid0 now0 rs)"
proof -
  let ?init = "\<lambda>n i. \<lparr> total = length rs, passed = 0, failed = 0, skipped = 0, errors = 0,
          gates = Map.empty, sum_timestamp = n, sum_taskId = i,
          overallStatus = None, score = None, sum_duration = None, sum_stored = None,
          sum_storageId = None, sum_storageError = None \<rparr>"
  have "?init now tid = (?init now0 tid0)\<lparr>sum_timestamp := now, sum_taskId := tid\<rparr>"
    by simp
  then have "summary_loop (?init now tid) rs =
      map_sum id (\<lambda>s'. s'\<lparr>sum_timestamp := now, sum_taskId := tid\<rparr>)
        (summary_loop (?init now0 tid0) rs)"
    by (simp only: summary_loop_frame)
  then show ?thesis
    by (cases "summary_loop (?init now0 tid0) rs")
       (simp_all add: generateSummary_def finish_summary_def)
qed

lemma generateSummary_taskId:
  assumes "generateSummary tid now rs = Inr s"
  shows "sum_taskId s = tid"
proof -
  have "Inr s = map_sum id (\<lambda>s. s\<lparr>sum_timestamp := now, sum_taskId := tid\<rparr>) (Inr s :: string + summary)"
    using generateSummary_frame [of tid now rs tid now] assms by simp
  then have "s = s\<lparr>sum_timestamp := now, sum_taskId := tid\<rparr>"
    by simp
  then have "sum_taskId s = sum_taskId (s\<lparr>sum_timestamp := now, sum_taskId := tid\<rparr>)"
    by (rule arg_cong)
  then show ?thesis by simp
qed

lemma generateSummary_verdict:
  "map_sum id verdict (generateSummary tid now rs) =
   map_sum id verdict (generateSummary tid0 now0 rs)"
  by (subst generateSummary_frame [of tid now rs tid0 now0])
     (cases "generateSummary tid0 now0 rs", simp_all add: verdict_def)

text \<open>The counters after the loop: one count per status the reporter knows.\<close>

lemma summary_loop_counts:
  "summary_loop s rs = Inr s' \<Longrightarrow>
   total s' = total s \<and>
   passed s' = passed s + length (filter (\<lambda>r. status r = ''passed'') rs) \<and>
   failed s' = failed s + length (filter (\<lambda>r. status r = ''failed'') rs) \<and>
   skipped s' = skipped s + length (filter (\<lambda>r. status r = ''skipped'') rs) \<and>
   errors s' = errors s + length (filter (\<lambda>r. status r = ''error'') rs)"
proof (induction rs arbitrary: s)
  case Nil
  then show ?case by simp
next
  case (Cons r rs)
  then obtain s1 where step: "summary_step s r = Inr s1" and rest: "summary_loop s1 rs = Inr s'"
    by (cases "summary_step s r") simp_all
  have "total s1 = total s \<and>
        passed s1 = passed s + (if status r = ''passed'' then 1 else 0) \<and>
        failed s1 = failed s + (if status r = ''failed'' then 1 else 0) \<and>
        skipped s1 = skipped s + (if status r = ''skipped'' then 1 else 0) \<and>
        errors s1 = errors s + (if status r = ''error'' then 1 else 0)"
    using step by (auto simp add: summary_step_def count_status_def Let_def split: if_splits)
  then show ?case using Cons.IH [OF rest] by simp
qed

text \<open>
  What \<open>generateSummary\<close> computes when it returns: the counts of the statuses
  \<open>'passed'\<close>, \<open>'failed'\<close>, \<open>'skipped'\<close>, \<open>'error'\<close>, the verdict and the score.
\<close>

lemma generateSummary_counts:
  assumes "generateSummary tid now rs = Inr s"
  shows "total s = length rs"
    and "passed s = length (filter (\<lambda>r. status r = ''passed'') rs)"
    and "failed s = length (filter (\<lambda>r. status r = ''failed'') rs)"
    and "skipped s = length (filter (\<lambda>r. status r = ''skipped'') rs)"
    and "errors s = length (filter (\<lambda>r. status r = ''error'') rs)"
    and "overallStatus s = Some (if failed s = 0 \<and> errors s = 0 then ''passed'' else ''failed'')"
    and "score s = Some (if total s = 0 then 0 else of_nat (passed s) / of_nat (total s) * 100)"
proof -
  let ?init = "\<lparr> total = length rs, passed = 0, failed = 0, skipped = 0, errors = 0,
          gates = Map.empty, sum_timestamp = now, sum_taskId = tid,
          overallStatus = None, score = None, sum_duration = None, sum_stored = None,
          sum_storageId = None, sum_storageError = None \<rparr>"
  obtain s0 where loop: "summary_loop ?init rs = Inr s0" and s: "s = finish_summary s0"
    using assms by (cases "summary_loop ?init rs") (auto simp add: generateSummary_def)
  note c = summary_loop_counts [OF loop]
  show "total s = length rs" using c s by (simp add: finish_summary_def)
  show "passed s = length (filter (\<lambda>r. status r = ''passed'') rs)"
    using c s by (simp add: finish_summary_def)
  show "failed s = length (filter (\<lambda>r. status r = ''failed'') rs)"
    using c s by (simp add: finish_summary_def)
  show "skipped s = length (filter (\<lambda>r. status r = ''skipped'') rs)"
    using c s by (simp add: finish_summary_def)
  show "errors s = length (filter (\<lambda>r. status r = ''error'') rs)"
    using c s by (simp add: finish_summary_def)
  show "overallStatus s = Some (if failed s = 0 \<and> errors s = 0 then ''passed'' else ''failed'')"
    using s by (auto simp add: finish_summary_def)
  show "score s = Some (if total s = 0 then 0 else of_nat (passed s) / of_nat (total s) * 100)"
    using s by (simp add: finish_summary_def)
qed

text \<open>With the statuses spelled as the reporter spells them, two passed and one failed.\<close>

lemma summary_of_passed_passed_failed:
  "map_sum id verdict
     (generateSummary tid now
        [gate_result ''G1'' ''passed'', gate_result ''G2'' ''passed'', gate_result ''G3'' ''failed'']) =
   Inr (3, 2, 1, 0, 0, Some (200 / 3), Some ''failed'')"
  by (simp add: verdict_def generateSummary_def gate_result_def plain_def summary_step_def count_status_def
      gate_key_def inherited_keys_def group_gate_def finish_summary_def Let_def)

lemma summary_of_pass_fail_pass:
  "map_sum id verdict
     (generateSummary tid now
        [gate_result ''G1'' ''pass'', gate_result ''G2'' ''fail'', gate_result ''G3'' ''pass'']) =
   Inr (3, 0, 0, 0, 0, Some 0, Some ''passed'')"
  by (simp add: verdict_def generateSummary_def gate_result_def plain_def summary_step_def count_status_def
      gate_key_def inherited_keys_def group_gate_def finish_summary_def Let_def)

section \<open>Lemmas about the reporter\<close>

lemma storage_target_None:
  "storage_target rep = None \<longleftrightarrow> storageAdapter rep = None \<or> \<not> truthy (rep_taskId rep)"
  by (cases "storageAdapter rep"; cases "rep_taskId rep") (simp_all add: storage_target_def)

lemma storage_target_emitted:
  "storage_target (rep\<lparr>emitted := x\<rparr>) = storage_target rep"
  by (simp add: storage_target_def split: option.split)

lemma storeSummary_verdict:
  "verdict (fst (storeSummary rep s)) = verdict s"
  by (simp add: verdict_def storeSummary_def storeQualityResult_def
      split: option.split prod.split sum.split)

section \<open>Lemmas about the runner\<close>

lemma finish_run_results: "results (snd (finish_run t0 st)) = results st"
  by (simp add: finish_run_def Let_def split: sum.split prod.split)

lemma finish_run_effects: "set (effects st) \<subseteq> set (effects (snd (finish_run t0 st)))"
  by (auto simp add: finish_run_def Let_def split: sum.split prod.split)

text \<open>
  The counters and the verdict of the summary that \<open>run\<close> returns are those of
  \<open>generateSummary\<close> on the results collected; the clock, the task id and the storage
  of the summary do not change them.
\<close>

lemma finish_run_verdict:
  "map_sum id verdict (fst (finish_run t0 st)) =
     map_sum id verdict (generateSummary tid0 now0 (results st))"
proof -
  let ?rep = "snd (flushBatch (rs_reporter st))"
  let ?g = "generateSummary (rep_taskId ?rep) (clock st) (results st)"
  have same: "map_sum id verdict ?g =
        map_sum id verdict (generateSummary tid0 now0 (results st))"
    by (rule generateSummary_verdict)
  have "map_sum id verdict (fst (finish_run t0 st)) = map_sum id verdict ?g"
  proof (cases ?g)
    case (Inl e)
    then show ?thesis by (simp add: finish_run_def)
  next
    case (Inr s)
    obtain s' rep' where
      st: "storeSummary ?rep (s\<lparr>sum_duration := Some (clock st - t0)\<rparr>) = (s', rep')"
      by (cases "storeSummary ?rep (s\<lparr>sum_duration := Some (clock st - t0)\<rparr>)")
    have "verdict s' = verdict (s\<lparr>sum_duration := Some (clock st - t0)\<rparr>)"
      using storeSummary_verdict [of ?rep "s\<lparr>sum_duration := Some (clock st - t0)\<rparr>"] st
      by simp
    then have "verdict s' = verdict s"
      by (simp add: verdict_def)
    then show ?thesis using Inr st by (simp add: finish_run_def)
  qed
  then show ?thesis using same by simp
qed

lemma run_returning:
  "run (returning n s) =
     (Inr (gate_result n s), 5,
      [SetTimer n 30000, Execute n 0, ClearTimer n 0, EmitComplete n s 5 1])"
  by (simp add: run_def returning_def run_loop.simps executeWithTimeout_def timer_delay_def
      gate_result_def plain_def)

lemma runGate_returning:
  "runGateWithTimeout 60000 (returning n s) =
     (Inr (gate_result n s), 5,
      [RunnerSetTimer n 60000, SetTimer n 30000, Execute n 0, ClearTimer n 0,
       EmitComplete n s 5 1, RunnerClearTimer n])"
  by (simp add: runGateWithTimeout_def run_returning timer_delay_def) (simp add: returning_def)

lemma status_gate_result: "status (gate_result n s) = s"
  by (simp add: gate_result_def plain_def)

lemma name_returning: "name (returning n s) = n"
  by (simp add: returning_def)

text \<open>
  The stop of the sequential loop: with \<open>continueOnFailure = false\<close>, a gate whose result
  has the status \<open>'failed'\<close> is the last one run, whatever gates follow it.
\<close>

lemma runSequential_breaks_on_failed:
  "entry_enabled e \<Longrightarrow> runGateWithTimeout tmo (entry_gate e) = (Inr r, t, fx) \<Longrightarrow>
   status r = ''failed'' \<Longrightarrow>
   runSequential False tmo (e # es) st = runSequential False tmo [e] st"
  by (simp add: Let_def)

lemma runSequential_stops_at_failed_gate:
  "results (runSequential False 60000
      [\<lparr> entry_gate = returning ''G1'' ''passed'', entry_enabled = True \<rparr>,
       \<lparr> entry_gate = returning ''G2'' ''failed'', entry_enabled = True \<rparr>,
       \<lparr> entry_gate = returning ''G3'' ''passed'', entry_enabled = True \<rparr>] st) =
     results st @ [gate_result ''G1'' ''passed'', gate_result ''G2'' ''failed'']"
  by (simp add: runGate_returning Let_def push_report_def status_gate_result)

text \<open>Parallel mode: one result per gate, in the order of the gates, each gate's own.\<close>

lemma runParallel_length:
  "length (results (runParallel tmo es st)) = length (results st) + length es"
  by (simp add: runParallel_def Let_def)

lemma run_gate: "fst (run g) = Inr r \<Longrightarrow> gate r = Some (name g)"
  using run_loop_gate [of g 0 None r]
  by (cases "enabled g") (auto simp add: run_def plain_def)

lemma parallel_task_gate: "gate (fst (parallel_task tmo e)) = Some (name (entry_gate e))"
proof (cases "entry_enabled e")
  case False
  then show ?thesis by (simp add: parallel_task_def disabled_result_def plain_def Let_def)
next
  case True
  obtain v t fx where r: "run (entry_gate e) = (v, t, fx)"
    by (cases "run (entry_gate e)")
  show ?thesis
  proof (cases "t < timer_delay tmo")
    case False
    then show ?thesis using True r
      by (simp add: parallel_task_def runGateWithTimeout_def errorResult_def plain_def Let_def)
  next
    case quick: True
    show ?thesis
    proof (cases v)
      case (Inl m)
      then show ?thesis using True r quick
        by (simp add: parallel_task_def runGateWithTimeout_def errorResult_def plain_def Let_def)
    next
      case (Inr x)
      then have "gate x = Some (name (entry_gate e))" using run_gate [of "entry_gate e" x] r by simp
      then show ?thesis using True r quick Inr
        by (simp add: parallel_task_def runGateWithTimeout_def Let_def)
    qed
  qed
qed

lemma runParallel_order:
  "map gate (results (runParallel tmo es st)) =
     map gate (results st) @ map (\<lambda>e. Some (name (entry_gate e))) es"
  by (simp add: runParallel_def Let_def parallel_task_gate comp_def)

lemma parallel_task_executes:
  assumes "entry_enabled e" and "enabled (entry_gate e)"
  shows "Execute (name (entry_gate e)) 0 \<in> set (snd (snd (parallel_task tmo e)))"
proof -
  obtain v t fx where r: "run (entry_gate e) = (v, t, fx)"
    by (cases "run (entry_gate e)")
  then have "Execute (name (entry_gate e)) 0 \<in> set fx"
    using run_executes [OF assms(2)] by simp
  then show ?thesis using assms(1) r
    by (cases v; cases "t < timer_delay tmo")
       (simp_all add: parallel_task_def runGateWithTimeout_def Let_def)
qed

lemma runParallel_executes:
  assumes "e \<in> set es" and "entry_enabled e" and "enabled (entry_gate e)"
  shows "Execute (name (entry_gate e)) 0 \<in> set (effects (runParallel tmo es st))"
  using assms(1) parallel_task_executes [OF assms(2,3), of tmo]
  by (auto simp add: runParallel_def Let_def)

lemma sequential_three_results:
  "results (runSequential False 60000 three_gates st) =
     results st @ [gate_result ''G1'' ''pass'', gate_result ''G2'' ''fail'', gate_result ''G3'' ''pass'']"
  by (simp add: three_gates_def runGate_returning Let_def push_report_def status_gate_result)

lemma sequential_three_effects:
  "Execute ''G3'' 0 \<in> set (effects (runSequential False 60000 three_gates st))"
  by (simp add: three_gates_def runGate_returning Let_def push_report_def status_gate_result
      name_returning)

lemma parallel_three_results:
  "results (runParallel 60000 three_gates st) =
     results st @ [gate_result ''G1'' ''pass'', gate_result ''G2'' ''fail'', gate_result ''G3'' ''pass'']"
  by (simp add: three_gates_def runParallel_def parallel_task_def runGate_returning Let_def)

section \<open>The claims\<close>

text \<open>
  C1. The specification: in sequential mode with \<open>continueOnFailure = false\<close> and gates
  G1, G2, G3 whose executions give a pass, a fail and a pass result, \<open>run\<close> yields the
  results of G1 and G2 only, and G3 is never invoked.
  The code stops for the status \<open>'failed'\<close> (\<open>runSequential_breaks_on_failed\<close>,
  \<open>runSequential_stops_at_failed_gate\<close>), while a failing gate of the repository returns
  the status \<open>'fail'\<close>. For three such gates the run does not stop: it yields three
  results, and \<open>execute\<close> of G3 is called.
\<close>

theorem sequential_run_continues_after_fail:
  "results (snd (runner_run (fail_fast_runner False) None 0)) =
     [gate_result ''G1'' ''pass'', gate_result ''G2'' ''fail'', gate_result ''G3'' ''pass''] \<and>
   Execute ''G3'' 0 \<in> set (effects (snd (runner_run (fail_fast_runner False) None 0))) \<and>
   map_sum id total (fst (runner_run (fail_fast_runner False) None 0)) = Inr 3"
proof -
  let ?st = "run_gates (fail_fast_runner False) (start_state (fail_fast_runner False) None 0)"
  have "results ?st =
     [gate_result ''G1'' ''pass'', gate_result ''G2'' ''fail'', gate_result ''G3'' ''pass'']"
    by (simp add: run_gates_def fail_fast_runner_def start_state_def sequential_three_results)
  moreover have "Execute ''G3'' 0 \<in> set (effects ?st)"
    by (simp add: run_gates_def fail_fast_runner_def sequential_three_effects)
  moreover have "map_sum id total (fst (finish_run 0 ?st)) = Inr 3"
  proof -
    have "map_sum id verdict (fst (finish_run 0 ?st)) = Inr (3, 0, 0, 0, 0, Some 0, Some ''passed'')"
      using finish_run_verdict [of 0 ?st None 0] summary_of_pass_fail_pass [of None 0]
        \<open>results ?st = _\<close> by simp
    then show ?thesis
      by (cases "fst (finish_run 0 ?st)") (simp_all add: verdict_def)
  qed
  ultimately show ?thesis
    using finish_run_effects [of ?st 0] by (auto simp add: runner_run_def finish_run_results)
qed

text \<open>
  C2. The specification: in parallel mode every enabled gate is executed whatever the
  policy, the results are one per gate in the order of the gates, and for the gates
  G1, G2, G3 giving pass, fail, pass the summary's \<open>overallStatus\<close> is \<open>'failed'\<close>.
  The first two parts hold (\<open>runParallel_executes\<close>, \<open>runParallel_length\<close>,
  \<open>runParallel_order\<close>). The verdict does not: \<open>generateSummary\<close> counts the status
  \<open>'failed'\<close> and the gates return \<open>'fail'\<close>, so the run of the three gates has three
  results and the verdict \<open>'passed'\<close>.
\<close>

theorem parallel_run_reports_passed:
  "results (snd (runner_run (fail_fast_runner True) None 0)) =
     [gate_result ''G1'' ''pass'', gate_result ''G2'' ''fail'', gate_result ''G3'' ''pass''] \<and>
   map_sum id verdict (fst (runner_run (fail_fast_runner True) None 0)) =
     Inr (3, 0, 0, 0, 0, Some 0, Some ''passed'')"
proof -
  let ?st = "run_gates (fail_fast_runner True) (start_state (fail_fast_runner True) None 0)"
  have r: "results ?st =
     [gate_result ''G1'' ''pass'', gate_result ''G2'' ''fail'', gate_result ''G3'' ''pass'']"
    by (simp add: run_gates_def fail_fast_runner_def start_state_def parallel_three_results)
  then show ?thesis
    using finish_run_verdict [of 0 ?st None 0] summary_of_pass_fail_pass [of None 0]
    by (simp add: runner_run_def finish_run_results)
qed

text \<open>
  C3. A disabled gate is skipped. \<open>BaseQualityGate.run\<close> of a gate with
  \<open>enabled = false\<close> returns at once (no time passes) the result with the status
  \<open>'skipped'\<close> and has no effect at all: no call of \<open>execute\<close>, no timer, no retry, no
  sleep. For an element of the runner's list with \<open>enabled = false\<close>, the sequential loop
  and the parallel task give the result with the status \<open>'skipped'\<close> without calling
  \<open>gate.run\<close>: the effects are unchanged, and the loop goes on with the next gate.
\<close>

theorem disabled_gate_is_skipped:
  "(\<not> enabled g \<longrightarrow>
      run g = (Inr ((plain ''skipped'')\<lparr>gate := Some (name g),
                      reason := Some ''Gate is disabled''\<rparr>), 0, [])) \<and>
   (\<not> entry_enabled e \<longrightarrow>
      status (disabled_result (entry_gate e)) = ''skipped'' \<and>
      results (runSequential cont tmo [e] st) = results st @ [disabled_result (entry_gate e)] \<and>
      effects (runSequential cont tmo [e] st) = effects st \<and>
      runSequential cont tmo (e # es) st =
        runSequential cont tmo es
          (push_report st (name (entry_gate e)) (disabled_result (entry_gate e))) \<and>
      parallel_task tmo e = (disabled_result (entry_gate e), 0, []))"
  by (simp add: run_def disabled_result_def plain_def push_report_def parallel_task_def Let_def)

theorem disabled_gate_is_skipped_witness:
  "\<not> enabled ((returning ''G'' ''pass'')\<lparr>enabled := False\<rparr>) \<and>
   \<not> entry_enabled \<lparr> entry_gate = returning ''G'' ''pass'', entry_enabled = False \<rparr> \<and>
   status (projr (fst (run ((returning ''G'' ''pass'')\<lparr>enabled := False\<rparr>)))) = ''skipped'' \<and>
   snd (run ((returning ''G'' ''pass'')\<lparr>enabled := False\<rparr>)) = (0, []) \<and>
   map status (results (runSequential False 60000
      [\<lparr> entry_gate = returning ''G'' ''pass'', entry_enabled = False \<rparr>]
      \<lparr> results = [], rs_reporter = fresh_reporter, effects = [], clock = 0 \<rparr>)) = [''skipped''] \<and>
   effects (runSequential False 60000
      [\<lparr> entry_gate = returning ''G'' ''pass'', entry_enabled = False \<rparr>]
      \<lparr> results = [], rs_reporter = fresh_reporter, effects = [], clock = 0 \<rparr>) = []"
  using disabled_gate_is_skipped [of "(returning ''G'' ''pass'')\<lparr>enabled := False\<rparr>"
      "\<lparr> entry_gate = returning ''G'' ''pass'', entry_enabled = False \<rparr>" False 60000
      "\<lparr> results = [], rs_reporter = fresh_reporter, effects = [], clock = 0 \<rparr>" "[]"]
  by (simp add: plain_def Let_def push_report_def disabled_result_def)

text \<open>
  C4. The specification: \<open>generateSummary\<close> is a pure function of the result sequence,
  two calls on the same sequence give identical summaries. The code puts the clock
  reading of the call into the summary (\<open>timestamp: new Date().toISOString()\<close>) and
  the reporter's current \<open>taskId\<close>. What holds: two calls on the same sequence by a
  reporter with the same \<open>taskId\<close> give summaries (or the same error) that agree in
  every field but \<open>timestamp\<close>.
\<close>

theorem generateSummary_same_but_timestamp:
  "map_sum id (\<lambda>s. s\<lparr>sum_timestamp := c\<rparr>) (generateSummary tid t1 rs) =
   map_sum id (\<lambda>s. s\<lparr>sum_timestamp := c\<rparr>) (generateSummary tid t2 rs)"
proof (cases "generateSummary tid t2 rs")
  case (Inl e)
  then show ?thesis
    by (subst generateSummary_frame [of tid t1 rs tid t2]) simp
next
  case (Inr s)
  then have "sum_taskId s = tid"
    by (rule generateSummary_taskId)
  then have "s\<lparr>sum_timestamp := t1, sum_taskId := tid\<rparr>\<lparr>sum_timestamp := c\<rparr> = s\<lparr>sum_timestamp := c\<rparr>"
    by simp
  then show ?thesis
    using Inr by (subst generateSummary_frame [of tid t1 rs tid t2]) simp
qed

text \<open>Two calls a millisecond apart on the same one-result sequence differ.\<close>

theorem generateSummary_differs_with_clock:
  "generateSummary None 1000 [gate_result ''G1'' ''passed''] \<noteq>
   generateSummary None 1001 [gate_result ''G1'' ''passed'']"
  by (simp add: generateSummary_def gate_result_def plain_def summary_step_def count_status_def
      gate_key_def inherited_keys_def group_gate_def finish_summary_def Let_def)





text \<open>
  C7. The specification: \<open>generateSummary\<close> on three results, two pass and one fail,
  yields \<open>total = 3\<close>, \<open>passed = 2\<close>, \<open>failed = 1\<close> and \<open>score = 66.66...\<close>; the verdict is
  \<open>'passed'\<close> exactly when \<open>failed = 0\<close> and \<open>errors = 0\<close>, and the score is
  \<open>passed / total * 100\<close>, 0 for no results.
  The rule for the verdict and the score holds (\<open>generateSummary_counts\<close>), and so do the
  numbers for results whose statuses are spelled \<open>'passed'\<close> and \<open>'failed'\<close>
  (\<open>summary_of_passed_passed_failed\<close>). The results that \<open>run\<close> returns for the
  repository's gates have the statuses \<open>'pass'\<close> and \<open>'fail'\<close>, which \<open>generateSummary\<close>
  does not count: for two pass and one fail it yields \<open>passed = 0\<close>, \<open>failed = 0\<close>,
  \<open>score = 0\<close> and the verdict \<open>'passed'\<close>.
\<close>

theorem summary_counts_no_pass_or_fail:
  "map_sum id verdict
     (generateSummary None 0
        [gate_result ''G1'' ''pass'', gate_result ''G2'' ''pass'', gate_result ''G3'' ''fail'']) =
   Inr (3, 0, 0, 0, 0, Some 0, Some ''passed'')"
  by (simp add: verdict_def generateSummary_def gate_result_def plain_def summary_step_def count_status_def
      gate_key_def inherited_keys_def group_gate_def finish_summary_def Let_def)

text \<open>
  C8. When the storage adapter rejects the call made by \<open>reportResult\<close> (reporter
  enabled, not in batch mode) or by \<open>storeSummary\<close>, the function still returns: the
  value returned is the enhanced result (the result with \<open>gateName\<close>, \<open>taskId\<close>,
  \<open>timestamp\<close> and the merged \<open>metadata\<close>), respectively the summary, changed only in
  \<open>stored = false\<close> and \<open>storageError\<close>, the adapter's message.
\<close>

theorem storage_failure_is_recorded:
  assumes "storage_target rep = Some (a, t)"
    and "a (length (storageLog rep)) = Inl m"
  shows "(rep_enabled rep \<and> \<not> batchMode rep \<longrightarrow>
            fst (reportResult rep now n r) =
              r\<lparr>gateName := Some n, taskId := rep_taskId rep, timestamp := Some now,
                metadata := reportMetadata rep ++ metadata r,
                stored := Some False, storageError := Some m\<rparr>) \<and>
         fst (storeSummary rep s) = s\<lparr>sum_stored := Some False, sum_storageError := Some m\<rparr>"
  using assms
  by (simp add: reportResult_def storeSummary_def storeQualityResult_def Let_def
      storage_target_emitted)

theorem storage_failure_is_recorded_witness:
  "storage_target failing_store = Some (\<lambda>k. Inl ''disk full'', ''task-1'') \<and>
   rep_enabled failing_store \<and> \<not> batchMode failing_store \<and>
   fst (reportResult failing_store 1000 ''G1'' (gate_result ''G1'' ''pass'')) =
     (gate_result ''G1'' ''pass'')\<lparr>gateName := Some ''G1'', taskId := Some ''task-1'',
        timestamp := Some 1000, stored := Some False, storageError := Some ''disk full''\<rparr> \<and>
   generateSummary (Some ''task-1'') 1000 [] = Inr empty_summary \<and>
   fst (storeSummary failing_store empty_summary) =
     empty_summary\<lparr>sum_stored := Some False, sum_storageError := Some ''disk full''\<rparr>"
proof -
  have tgt: "storage_target failing_store = Some (\<lambda>k. Inl ''disk full'', ''task-1'')"
    by (simp add: failing_store_def fresh_reporter_def storage_target_def)
  have rej: "(\<lambda>k. Inl ''disk full'' :: string + string) (length (storageLog failing_store)) =
      Inl ''disk full''"
    by simp
  have flags: "rep_enabled failing_store \<and> \<not> batchMode failing_store"
    by (simp add: failing_store_def fresh_reporter_def)
  have md: "reportMetadata failing_store ++ metadata (gate_result ''G1'' ''pass'') =
      metadata (gate_result ''G1'' ''pass'')"
    by (simp add: failing_store_def fresh_reporter_def gate_result_def plain_def)
  have tid: "rep_taskId failing_store = Some ''task-1''"
    by (simp add: failing_store_def)
  have gen: "generateSummary (Some ''task-1'') 1000 [] = Inr empty_summary"
    by (simp add: generateSummary_def finish_summary_def empty_summary_def)
  show ?thesis
    using storage_failure_is_recorded [OF tgt rej, of 1000 "''G1''" "gate_result ''G1'' ''pass''"
        empty_summary] tgt flags gen
    by (simp add: md tid)
qed




text \<open>
  C10. \<open>flushBatch\<close> in batch mode on a non-empty batch leaves the batch empty, whatever
  the storage adapter does; and without a storage adapter or without a task id it returns
  the summary with \<open>total\<close> the number of buffered results, \<open>stored = 0\<close>, \<open>failed = 0\<close>
  and no results.
\<close>

theorem flushBatch_empties_batch:
  assumes "batchMode rep" and "batchResults rep \<noteq> []"
  shows "batchResults (snd (flushBatch rep)) = [] \<and>
         (storageAdapter rep = None \<or> \<not> truthy (rep_taskId rep) \<longrightarrow>
            fst (flushBatch rep) =
              FlushSummary \<lparr> f_total = length (batchResults rep), f_stored = 0, f_failed = 0,
                             f_results = [] \<rparr>)"
proof -
  have "batchResults (snd (flushBatch rep)) = []"
    using assms by (simp add: flushBatch_def Let_def split: prod.split)
  moreover have "fst (flushBatch rep) =
      FlushSummary \<lparr> f_total = length (batchResults rep), f_stored = 0, f_failed = 0,
                     f_results = [] \<rparr>"
    if "storageAdapter rep = None \<or> \<not> truthy (rep_taskId rep)"
  proof -
    have "storage_target rep = None"
      using that by (simp add: storage_target_None)
    then show ?thesis
      using assms by (simp add: flushBatch_def Let_def)
  qed
  ultimately show ?thesis by blast
qed

theorem flushBatch_empties_batch_witness:
  "batchMode (fresh_reporter\<lparr>batchMode := True,
      batchResults := [gate_result ''G1'' ''pass'', gate_result ''G2'' ''fail'']\<rparr>) \<and>
   storageAdapter fresh_reporter = None \<and>
   flushBatch (fresh_reporter\<lparr>batchMode := True,
      batchResults := [gate_result ''G1'' ''pass'', gate_result ''G2'' ''fail'']\<rparr>) =
     (FlushSummary \<lparr> f_total = 2, f_stored = 0, f_failed = 0, f_results = [] \<rparr>,
      fresh_reporter\<lparr>batchMode := True, batchResults := [],
        emitted := [BatchFlushed \<lparr> f_total = 2, f_stored = 0, f_failed = 0, f_results = [] \<rparr>]\<rparr>)"
  using flushBatch_empties_batch [of "fresh_reporter\<lparr>batchMode := True,
      batchResults := [gate_result ''G1'' ''pass'', gate_result ''G2'' ''fail'']\<rparr>"]
  by (simp add: fresh_reporter_def flushBatch_def storage_target_def Let_def)

end
